theory Spec2Isabelle
  imports Complex_Main "HOL-Library.Word"
begin

section \<open>Strings of the page script\<close>

text \<open>
  A JavaScript string is a sequence of UTF-16 code units; \<open>s.length\<close> counts them and
  \<open>s[i]\<close> reads one of them (\<open>undefined\<close> out of range). An ASCII literal of the
  script is written \<open>js ''...''\<close>.
\<close>

type_synonym jschar = "16 word"
type_synonym jsstring = "jschar list"

abbreviation js :: "string \<Rightarrow> jsstring" where
  "js s \<equiv> map of_char s"

definition nl :: jsstring where
  "nl = [0x0A]"

text \<open>\<open>v || d\<close> on a value that is a string or \<open>null\<close>: the empty string is falsy too.\<close>

definition or_else :: "jsstring option \<Rightarrow> jsstring \<Rightarrow> jsstring" where
  "or_else v d = (case v of None \<Rightarrow> d | Some s \<Rightarrow> if s = [] then d else s)"

section \<open>Theme toggle\<close>

text \<open>
  The state the theme code reads and writes: the \<open>data-theme\<close> attribute of the root
  element (\<open>getAttribute\<close> gives \<open>null\<close> when it is absent), the local storage (a
  dictionary from keys to strings), the \<open>display\<close> style of the two icons, the global
  slot \<open>window.updateCanvasTheme\<close> (whether it holds a function) and the variable
  \<open>canvasTheme\<close> that function assigns. The two icon elements are dereferenced without
  a guard when the script loads, so the click handler only ever exists on a page that has
  both.
\<close>

record page =
  data_theme :: "jsstring option"
  localStorage :: "jsstring \<rightharpoonup> jsstring"
  sunIcon_display :: jsstring
  moonIcon_display :: jsstring
  window_updateCanvasTheme :: bool
  canvasTheme :: jsstring

definition updateThemeIcon :: "jsstring \<Rightarrow> page \<Rightarrow> page" where
  "updateThemeIcon theme s =
     (if theme = js ''light''
      then s\<lparr>sunIcon_display := js ''none'', moonIcon_display := js ''block''\<rparr>
      else s\<lparr>sunIcon_display := js ''block'', moonIcon_display := js ''none''\<rparr>)"

definition updateCanvasTheme :: "jsstring \<Rightarrow> page \<Rightarrow> page" where
  "updateCanvasTheme theme s = s\<lparr>canvasTheme := theme\<rparr>"

text \<open>The listener registered for a click on the toggle button.\<close>

definition themeToggle_click :: "page \<Rightarrow> page" where
  "themeToggle_click s =
     (let currentTheme = data_theme s;
          newTheme = (if currentTheme = Some (js ''dark'') then js ''light'' else js ''dark'');
          s1 = s\<lparr>data_theme := Some newTheme\<rparr>;
          s2 = s1\<lparr>localStorage := (localStorage s1)(js ''theme'' \<mapsto> newTheme)\<rparr>;
          s3 = updateThemeIcon newTheme s2
      in if window_updateCanvasTheme s3 then updateCanvasTheme newTheme s3 else s3)"

text \<open>
  What the script does to this state when the page loads, from the storage the browser
  kept: the saved theme or \<open>dark\<close>, the icons, and further down the canvas theme and the
  global slot.
\<close>

definition page_load :: "(jsstring \<rightharpoonup> jsstring) \<Rightarrow> page" where
  "page_load storage =
     (let currentTheme = or_else (storage (js ''theme'')) (js ''dark'');
          s0 = \<lparr>data_theme = Some currentTheme, localStorage = storage,
                sunIcon_display = [], moonIcon_display = [],
                window_updateCanvasTheme = False, canvasTheme = []\<rparr>;
          s1 = updateThemeIcon currentTheme s0;
          s2 = s1\<lparr>canvasTheme := or_else (data_theme s1) (js ''dark'')\<rparr>
      in s2\<lparr>window_updateCanvasTheme := True\<rparr>)"

section \<open>Rendering the content tables\<close>

record project =
  title :: jsstring
  description :: jsstring
  tags :: "jsstring list"
  link :: jsstring

record organization =
  name :: jsstring
  description :: jsstring
  icon :: jsstring
  link :: jsstring

text \<open>
  A card is a \<open>div\<close> created by the script: its class, the markup assigned to its
  \<open>innerHTML\<close>, the cursor style and the listeners added to it. A listener is recorded
  by what it does: the spotlight follows the pointer, the click opens the record's link
  in a new tab unless the click came from inside an anchor.
\<close>

datatype listener = Mousemove_spotlight | Click_open jsstring

record element =
  className :: jsstring
  innerHTML :: jsstring
  style_cursor :: jsstring
  listeners :: "listener list"

definition createElement_div :: element where
  "createElement_div = \<lparr>className = [], innerHTML = [], style_cursor = [], listeners = []\<rparr>"

text \<open>\<open>addEventListener\<close> on a card.\<close>

definition addEventListener :: "listener \<Rightarrow> element \<Rightarrow> element" where
  "addEventListener l e = e\<lparr>listeners := listeners e @ [l]\<rparr>"

text \<open>\<open>tags.map(tag => ...).join('')\<close>\<close>

definition tag_spans :: "jsstring list \<Rightarrow> jsstring" where
  \<open>tag_spans ts = concat (map (\<lambda>tag. js ''<span class="tag">'' @ tag @ js ''</span>'') ts)\<close>

definition project_markup :: "project \<Rightarrow> jsstring" where
  \<open>project_markup p =
     nl @
     js ''        <div class="project-content">'' @
     nl @
     js ''            <h3 class="project-title">'' @
     title p @
     js ''</h3>'' @
     nl @
     js ''            <p class="project-desc">'' @
     project.description p @
     js ''</p>'' @
     nl @
     js ''        </div>'' @
     nl @
     js ''        <div class="project-footer">'' @
     nl @
     js ''            <div class="project-tags">'' @
     nl @
     js ''                '' @
     tag_spans (tags p) @
     nl @
     js ''            </div>'' @
     nl @
     js ''            <a href="'' @
     project.link p @
     js ''" target="_blank" class="project-link-icon" aria-label="View Project">'' @
     nl @
     js ''                <svg width="12" height="12" viewBox="0 0 24 24" fill="none" stroke="currentColor" stroke-width="2" stroke-linecap="round" stroke-linejoin="round"><line x1="7" y1="17" x2="17" y2="7"></line><polyline points="7 7 17 7 17 17"></polyline></svg>'' @
     nl @
     js ''            </a>'' @
     nl @
     js ''        </div>'' @
     nl @
     js ''        ''\<close>

text \<open>The body of the \<open>forEach\<close> over the projects, up to the \<open>appendChild\<close>.\<close>

definition project_card :: "project \<Rightarrow> element" where
  "project_card p =
     (let card = createElement_div;
          card = card\<lparr>className := js ''project-card''\<rparr>;
          card = card\<lparr>innerHTML := project_markup p\<rparr>;
          card = addEventListener Mousemove_spotlight card;
          card = addEventListener (Click_open (project.link p)) card
      in card\<lparr>style_cursor := js ''pointer''\<rparr>)"

definition org_markup :: "organization \<Rightarrow> jsstring" where
  \<open>org_markup org =
     nl @
     js ''            <div class="org-icon">'' @
     nl @
     js ''                <img src="'' @
     icon org @
     js ''" alt="'' @
     name org @
     js ''">'' @
     nl @
     js ''            </div>'' @
     nl @
     js ''            <div class="org-info">'' @
     nl @
     js ''                <h3>'' @
     name org @
     js ''</h3>'' @
     nl @
     js ''                <p>'' @
     organization.description org @
     js ''</p>'' @
     nl @
     js ''                <a href="'' @
     organization.link org @
     js ''" target="_blank" class="org-link">View Organization &rarr;</a>'' @
     nl @
     js ''            </div>'' @
     nl @
     js ''        ''\<close>

definition org_card :: "organization \<Rightarrow> element" where
  "org_card org =
     (let card = createElement_div;
          card = card\<lparr>className := js ''org-card''\<rparr>
      in card\<lparr>innerHTML := org_markup org\<rparr>)"

text \<open>
  The document, as far as rendering goes: for each of the two containers the script looks
  up, \<open>None\<close> when the lookup gives \<open>null\<close>, otherwise the container's children in
  order. Assigning \<open>''\<close> to a container's \<open>innerHTML\<close> removes its children;
  \<open>appendChild\<close> adds one at the end.
\<close>

record document =
  projects_container :: "element list option"
  org_container :: "element list option"

definition projectsContainer_appendChild :: "element \<Rightarrow> document \<Rightarrow> document" where
  "projectsContainer_appendChild child d =
     d\<lparr>projects_container := map_option (\<lambda>children. children @ [child]) (projects_container d)\<rparr>"

definition orgContainer_appendChild :: "element \<Rightarrow> document \<Rightarrow> document" where
  "orgContainer_appendChild child d =
     d\<lparr>org_container := map_option (\<lambda>children. children @ [child]) (org_container d)\<rparr>"

definition render_projects :: "project list \<Rightarrow> document \<Rightarrow> document" where
  "render_projects projects d =
     (case projects_container d of
        None \<Rightarrow> d
      | Some _ \<Rightarrow>
          fold (\<lambda>project. projectsContainer_appendChild (project_card project)) projects
            (d\<lparr>projects_container := Some []\<rparr>))"

definition render_organizations :: "organization list \<Rightarrow> document \<Rightarrow> document" where
  "render_organizations organizations d =
     (case org_container d of
        None \<Rightarrow> d
      | Some _ \<Rightarrow>
          fold (\<lambda>org. orgContainer_appendChild (org_card org)) organizations
            (d\<lparr>org_container := Some []\<rparr>))"

section \<open>Particle canvas\<close>

text \<open>
  A particle of the background canvas. Its coordinates and velocities are JavaScript
  numbers, that is doubles. A double is a real number here, and \<open>fl\<close> stands for the
  rounding of a real number to the nearest double: an arithmetic operation of the code
  gives \<open>fl\<close> of the exact result of the operation on its operands, as IEEE 754 has it
  for addition, subtraction, multiplication, division and square root. The definitions
  take \<open>fl\<close> as a parameter and the theorems hold for every \<open>fl\<close>; with the identity
  for \<open>fl\<close> the arithmetic is exact. Three things carry no rounding because they are
  exact on doubles: comparisons, multiplication by \<open>-1\<close> (the sign is flipped), and
  the literals that are integers or \<open>0.5\<close>. \<open>width\<close> and \<open>height\<close> are the canvas size
  the resize handler keeps.
\<close>

record Particle =
  p_x :: real
  p_y :: real
  vx :: real
  vy :: real
  p_size :: real

definition Particle_update :: "(real \<Rightarrow> real) \<Rightarrow> real \<Rightarrow> real \<Rightarrow> Particle \<Rightarrow> Particle" where
  "Particle_update fl width height p =
     (let p = p\<lparr>p_x := fl (p_x p + vx p)\<rparr>;
          p = p\<lparr>p_y := fl (p_y p + vy p)\<rparr>;
          p = (if p_x p < 0 \<or> p_x p > width then p\<lparr>vx := vx p * (- 1)\<rparr> else p)
      in (if p_y p < 0 \<or> p_y p > height then p\<lparr>vy := vy p * (- 1)\<rparr> else p))"

text \<open>
  The calls made on the 2D context, in order; \<open>theme\<close> is the value of \<open>canvasTheme\<close>.
  A colour string \<open>rgba(r, g, b, a)\<close> is kept as its four numbers.
\<close>

datatype colour = Rgba real real real real

datatype ctx_call =
    ClearRect real real real real
  | FillStyle colour
  | StrokeStyle colour
  | LineWidth real
  | BeginPath
  | Arc real real real real real
  | Fill
  | MoveTo real real
  | LineTo real real
  | Stroke

definition draw :: "(real \<Rightarrow> real) \<Rightarrow> jsstring \<Rightarrow> Particle \<Rightarrow> ctx_call list" where
  "draw fl theme p =
     (let particleColor = (if theme = js ''light'' then Rgba 0 0 0 0.15
                           else Rgba 255 255 255 0.2)
      in [FillStyle particleColor, BeginPath,
          Arc (p_x p) (p_y p) (p_size p) 0 (fl (fl pi * 2)), Fill])"

text \<open>\<open>dx\<close>, \<open>dy\<close> and \<open>dist\<close> of the inner loop.\<close>

definition particle_dist :: "(real \<Rightarrow> real) \<Rightarrow> Particle \<Rightarrow> Particle \<Rightarrow> real" where
  "particle_dist fl p p2 =
     (let dx = fl (p_x p - p_x p2);
          dy = fl (p_y p - p_y p2)
      in fl (sqrt (fl (fl (dx * dx) + fl (dy * dy)))))"

text \<open>
  The inner loop of a frame: \<open>p\<close> against every particle after it in the array.
\<close>

fun connect :: "(real \<Rightarrow> real) \<Rightarrow> jsstring \<Rightarrow> Particle \<Rightarrow> Particle list \<Rightarrow> ctx_call list" where
  "connect fl theme p [] = []"
| "connect fl theme p (p2 # rest) =
     (let dist = particle_dist fl p p2
      in if dist < 120
         then (let lineOpacity = (if theme = js ''light'' then fl (fl 0.03 - fl (dist / 4000))
                                  else fl (fl 0.05 - fl (dist / 2400)));
                   lineColor = (if theme = js ''light'' then Rgba 0 0 0 lineOpacity
                                else Rgba 255 255 255 lineOpacity)
               in [StrokeStyle lineColor, LineWidth 0.5, BeginPath,
                   MoveTo (p_x p) (p_y p), LineTo (p_x p2) (p_y p2), Stroke])
         else [])
     @ connect fl theme p rest"

text \<open>
  The \<open>forEach\<close> of a frame. Each particle is stepped and drawn, then compared with the
  particles after it, which this frame has not stepped yet. The result is the array after
  the frame and the context calls made.
\<close>

fun forEach_particles ::
  "(real \<Rightarrow> real) \<Rightarrow> jsstring \<Rightarrow> real \<Rightarrow> real \<Rightarrow> Particle list
     \<Rightarrow> Particle list \<times> ctx_call list" where
  "forEach_particles fl theme width height [] = ([], [])"
| "forEach_particles fl theme width height (p # rest) =
     (let p = Particle_update fl width height p;
          calls = draw fl theme p @ connect fl theme p rest;
          (rest', calls') = forEach_particles fl theme width height rest
      in (p # rest', calls @ calls'))"

text \<open>One run of \<open>animateNetwork\<close>; it ends by scheduling itself for the next frame.\<close>

definition animateNetwork ::
  "(real \<Rightarrow> real) \<Rightarrow> jsstring \<Rightarrow> real \<Rightarrow> real \<Rightarrow> Particle list
     \<Rightarrow> Particle list \<times> ctx_call list" where
  "animateNetwork fl theme width height particles =
     (let (particles', calls) = forEach_particles fl theme width height particles
      in (particles', ClearRect 0 0 width height # calls))"

text \<open>
  The line segments a sequence of context calls strokes: each \<open>moveTo\<close> followed at once
  by a \<open>lineTo\<close> and a \<open>stroke\<close>. The discs it fills: the centre of each \<open>arc\<close>.
\<close>

fun segments :: "ctx_call list \<Rightarrow> ((real \<times> real) \<times> (real \<times> real)) list" where
  "segments (MoveTo a b # LineTo c d # Stroke # calls) = ((a, b), (c, d)) # segments calls"
| "segments (_ # calls) = segments calls"
| "segments [] = []"

fun discs :: "ctx_call list \<Rightarrow> (real \<times> real) list" where
  "discs (Arc a b r s e # calls) = (a, b) # discs calls"
| "discs (_ # calls) = discs calls"
| "discs [] = []"

section \<open>Text scramble\<close>

text \<open>
  One slot of the queue. \<open>char\<close> is the glyph last shown for the slot: absent until the
  slot is first scrambled.
\<close>

record slot =
  slot_from :: jsstring
  slot_to :: jsstring
  slot_start :: int
  slot_end :: int
  slot_char :: "jsstring option"

text \<open>
  A \<open>TextScramble\<close> instance together with the parts of the browser it acts on.
  \<^item> \<open>el\<close>, \<open>chars\<close>, \<open>queue\<close>, \<open>frame\<close>, \<open>frameRequest\<close> and \<open>resolve\<close> are
    the fields of the instance. \<open>queue\<close> and \<open>frame\<close> are unset until the first
    \<open>setText\<close> (here empty and 0; \<open>update\<close> runs only from \<open>setText\<close> or from a frame
    callback that \<open>update\<close> scheduled). \<open>frameRequest\<close> and \<open>resolve\<close> are \<open>None\<close>
    while unset.
  \<^item> \<open>scheduled\<close> holds the handles of the frame callbacks registered with this
    instance's \<open>update\<close> that the browser has neither run nor cancelled;
    \<open>next_handle\<close> is the handle the next \<open>requestAnimationFrame\<close> returns. Handles
    are only ever compared for equality.
  \<^item> A promise is known by a number; \<open>resolve\<close> holds the number of the promise whose
    resolving function is stored in the instance, \<open>resolved\<close> the promises that function
    has been called for.
  \<^item> \<open>random\<close> is the sequence of values \<open>Math.random()\<close> returns to the instance,
    \<open>drawn\<close> how many of them have been taken. They are real numbers here; the browser
    gives doubles in [0, 1).
\<close>

record TextScramble =
  el :: element
  chars :: jsstring
  queue :: "slot list"
  frame :: int
  frameRequest :: "nat option"
  resolve :: "nat option"
  scheduled :: "nat list"
  next_handle :: nat
  next_promise :: nat
  resolved :: "nat set"
  random :: "nat \<Rightarrow> real"
  drawn :: nat

definition new_TextScramble :: "element \<Rightarrow> (nat \<Rightarrow> real) \<Rightarrow> TextScramble" where
  "new_TextScramble e rnd =
     \<lparr>el = e,
      chars = js ''!<>-_'' @ [0x5C] @ js ''/[]{}'' @ [0xE2, 0x20AC, 0x201D] @ js ''=+*^?#________'',
      queue = [], frame = 0, frameRequest = None, resolve = None,
      scheduled = [], next_handle = 1, next_promise = 0, resolved = {},
      random = rnd, drawn = 0\<rparr>"

definition Math_random :: "TextScramble \<Rightarrow> real \<times> TextScramble" where
  "Math_random w = (random w (drawn w), w\<lparr>drawn := Suc (drawn w)\<rparr>)"

definition requestAnimationFrame :: "TextScramble \<Rightarrow> nat \<times> TextScramble" where
  "requestAnimationFrame w =
     (next_handle w,
      w\<lparr>scheduled := scheduled w @ [next_handle w], next_handle := Suc (next_handle w)\<rparr>)"

text \<open>Cancelling a handle that is not scheduled, or \<open>undefined\<close>, does nothing.\<close>

definition cancelAnimationFrame :: "nat option \<Rightarrow> TextScramble \<Rightarrow> TextScramble" where
  "cancelAnimationFrame h w =
     (case h of None \<Rightarrow> w | Some h \<Rightarrow> w\<lparr>scheduled := removeAll h (scheduled w)\<rparr>)"

text \<open>\<open>new Promise((resolve) => this.resolve = resolve)\<close>\<close>

definition new_Promise :: "TextScramble \<Rightarrow> nat \<times> TextScramble" where
  "new_Promise w =
     (next_promise w, w\<lparr>resolve := Some (next_promise w), next_promise := Suc (next_promise w)\<rparr>)"

text \<open>\<open>this.resolve()\<close>\<close>

definition call_resolve :: "TextScramble \<Rightarrow> TextScramble" where
  "call_resolve w =
     (case resolve w of None \<Rightarrow> w | Some p \<Rightarrow> w\<lparr>resolved := insert p (resolved w)\<rparr>)"

text \<open>\<open>s[i] || ''\<close>\<close>

definition char_at :: "jsstring \<Rightarrow> nat \<Rightarrow> jsstring" where
  "char_at s i = (if i < length s then [s ! i] else [])"

definition randomChar :: "TextScramble \<Rightarrow> jsstring option \<times> TextScramble" where
  "randomChar w =
     (let (r, w) = Math_random w;
          k = \<lfloor>r * real (length (chars w))\<rfloor>
      in (if 0 \<le> k \<and> k < int (length (chars w)) then Some [chars w ! nat k] else None, w))"

text \<open>\<open>!char\<close>, and \<open>char\<close> inside a template.\<close>

definition falsy :: "jsstring option \<Rightarrow> bool" where
  "falsy c = (case c of None \<Rightarrow> True | Some s \<Rightarrow> s = [])"

definition template_string :: "jsstring option \<Rightarrow> jsstring" where
  "template_string c = (case c of None \<Rightarrow> js ''undefined'' | Some s \<Rightarrow> s)"

text \<open>
  The loop of \<open>update\<close> over the queue, from the slots not yet visited and the values
  of \<open>output\<close> and \<open>complete\<close> (here \<open>completed\<close>) so far; it gives back the slots as
  the loop leaves them.
\<close>

fun update_queue ::
  "slot list \<Rightarrow> jsstring \<times> nat \<times> TextScramble \<Rightarrow> slot list \<times> jsstring \<times> nat \<times> TextScramble" where
  "update_queue [] (output, completed, w) = ([], output, completed, w)"
| \<open>update_queue (q # qs) (output, completed, w) =
     (if frame w \<ge> slot_end q then
        (let (qs', r) = update_queue qs (output @ slot_to q, completed + 1, w)
         in (q # qs', r))
      else if frame w \<ge> slot_start q then
        (let (char, w) =
               (if falsy (slot_char q) then randomChar w
                else (let (r, w) = Math_random w
                      in if r < 0.28 then randomChar w else (slot_char q, w)));
             q = q\<lparr>slot_char := char\<rparr>;
             (qs', r) = update_queue qs
                 (output @ js ''<span class="dud">'' @ template_string char @ js ''</span>'',
                  completed, w)
         in (q # qs', r))
      else
        (let (qs', r) = update_queue qs (output @ slot_from q, completed, w)
         in (q # qs', r)))\<close>

definition TextScramble_update :: "TextScramble \<Rightarrow> TextScramble" where
  "TextScramble_update w =
     (let (queue', output, completed, w) = update_queue (queue w) ([], 0, w);
          w = w\<lparr>queue := queue'\<rparr>;
          w = w\<lparr>el := (el w)\<lparr>innerHTML := output\<rparr>\<rparr>
      in if completed = length (queue w) then call_resolve w
         else (let (h, w) = requestAnimationFrame w;
                   w = w\<lparr>frameRequest := Some h\<rparr>
               in w\<lparr>frame := frame w + 1\<rparr>))"

text \<open>The body of the \<open>for\<close> loop of \<open>setText\<close>.\<close>

definition push_slot :: "jsstring \<Rightarrow> jsstring \<Rightarrow> nat \<Rightarrow> TextScramble \<Rightarrow> TextScramble" where
  "push_slot oldText newText i w =
     (let from = char_at oldText i;
          to = char_at newText i;
          (r, w) = Math_random w;
          start = \<lfloor>r * 40\<rfloor>;
          (r, w) = Math_random w;
          end = start + \<lfloor>r * 40\<rfloor>
      in w\<lparr>queue := queue w @
           [\<lparr>slot_from = from, slot_to = to, slot_start = start, slot_end = end,
             slot_char = None\<rparr>]\<rparr>)"

text \<open>
  \<open>setText\<close>. \<open>oldText\<close> is what the browser gives for \<open>this.el.innerText\<close> at the
  call. The result is the promise returned and the state after the call.
\<close>

definition setText :: "jsstring \<Rightarrow> jsstring \<Rightarrow> TextScramble \<Rightarrow> nat \<times> TextScramble" where
  "setText oldText newText w =
     (let len = max (length oldText) (length newText);
          (promise, w) = new_Promise w;
          w = w\<lparr>queue := []\<rparr>;
          w = fold (push_slot oldText newText) [0..<len] w;
          w = cancelAnimationFrame (frameRequest w) w;
          w = w\<lparr>frame := 0\<rparr>;
          w = TextScramble_update w
      in (promise, w))"

text \<open>
  What can happen to an instance: a call of \<open>setText\<close>, or the browser running the
  frame callback with a given handle (nothing happens when that handle is not
  scheduled). In one animation frame the browser runs the callbacks that were scheduled
  when the frame began.
\<close>

datatype event = SetText jsstring jsstring | RunFrameCallback nat

definition run_frame_callback :: "nat \<Rightarrow> TextScramble \<Rightarrow> TextScramble" where
  "run_frame_callback h w =
     (if h \<in> set (scheduled w)
      then TextScramble_update (w\<lparr>scheduled := removeAll h (scheduled w)\<rparr>)
      else w)"

fun step :: "event \<Rightarrow> TextScramble \<Rightarrow> TextScramble" where
  "step (SetText oldText newText) w = snd (setText oldText newText w)"
| "step (RunFrameCallback h) w = run_frame_callback h w"

definition run :: "event list \<Rightarrow> TextScramble \<Rightarrow> TextScramble" where
  "run evs w = fold step evs w"

definition animation_frame :: "TextScramble \<Rightarrow> TextScramble" where
  "animation_frame w = fold run_frame_callback (scheduled w) w"

text \<open>
  What the browser displays for the markup assigned to an element's \<open>innerHTML\<close>, as
  far as tags go: a \<open><\<close> followed by an ASCII letter, or by \<open>/\<close> and an ASCII letter,
  opens a tag, which runs to the next \<open>>\<close> and displays nothing; every other code unit
  displays as itself. So \<open><span class="dud">!</span>\<close> displays \<open>!\<close>. Character
  references, comments and the collapsing of white space are left out.
\<close>

definition is_ascii_letter :: "jschar \<Rightarrow> bool" where
  "is_ascii_letter c = ((0x41 \<le> c \<and> c \<le> 0x5A) \<or> (0x61 \<le> c \<and> c \<le> 0x7A))"

definition opens_tag :: "jsstring \<Rightarrow> bool" where
  "opens_tag cs =
     (case cs of
        [] \<Rightarrow> False
      | d # ds \<Rightarrow>
          is_ascii_letter d
          \<or> (d = 0x2F \<and> (case ds of [] \<Rightarrow> False | e # _ \<Rightarrow> is_ascii_letter e)))"

fun rendered_text :: "bool \<Rightarrow> jsstring \<Rightarrow> jsstring" where
  "rendered_text in_tag [] = []"
| "rendered_text True (c # cs) = rendered_text (c \<noteq> 0x3E) cs"
| "rendered_text False (c # cs) =
     (if c = 0x3C \<and> opens_tag cs then rendered_text True cs else c # rendered_text False cs)"

definition innerText :: "element \<Rightarrow> jsstring" where
  "innerText e = rendered_text False (innerHTML e)"

section \<open>Auxiliary notions for the proofs about the text scramble\<close>

text \<open>
  The invariant of the frame loop: nothing is scheduled, or exactly the callback whose
  handle \<open>frameRequest\<close> holds; and every scheduled handle has already been handed out.
\<close>

definition loop_inv :: "TextScramble \<Rightarrow> bool" where
  "loop_inv w \<longleftrightarrow>
     (case frameRequest w of
        None \<Rightarrow> scheduled w = []
      | Some h \<Rightarrow> scheduled w = [] \<or> scheduled w = [h])
     \<and> list_all (\<lambda>h. h < next_handle w) (scheduled w)"

text \<open>The state in which \<open>setText\<close> calls \<open>update\<close>.\<close>

definition before_update :: "jsstring \<Rightarrow> jsstring \<Rightarrow> TextScramble \<Rightarrow> TextScramble" where
  "before_update oldText newText w =
     (cancelAnimationFrame (frameRequest w)
        (fold (push_slot oldText newText) [0..<max (length oldText) (length newText)]
           (w\<lparr>resolve := Some (next_promise w), next_promise := Suc (next_promise w),
              queue := []\<rparr>)))
     \<lparr>frame := 0\<rparr>"

section \<open>Properties of the theme toggle\<close>

lemma themeToggle_click_theme:
  "data_theme (themeToggle_click s) =
     Some (if data_theme s = Some (js ''dark'') then js ''light'' else js ''dark'')"
  by (simp add: themeToggle_click_def updateThemeIcon_def updateCanvasTheme_def Let_def)

lemma themeToggle_click_storage:
  "localStorage (themeToggle_click s) =
     (localStorage s)(js ''theme'' \<mapsto>
        (if data_theme s = Some (js ''dark'') then js ''light'' else js ''dark''))"
  by (simp add: themeToggle_click_def updateThemeIcon_def updateCanvasTheme_def Let_def)

text \<open>
  C10. One click on the toggle sets the theme to \<open>dark\<close> whenever the current value of
  the attribute is not exactly \<open>dark\<close> (an unrecognised value or no attribute at all
  included) and to \<open>light\<close> when it is \<open>dark\<close>; the same value is written to the storage,
  so after any click both are \<open>light\<close> or \<open>dark\<close>.
\<close>

theorem themeToggle_click_light_or_dark:
  "data_theme (themeToggle_click s) =
     Some (if data_theme s = Some (js ''dark'') then js ''light'' else js ''dark'')
   \<and> localStorage (themeToggle_click s) (js ''theme'') = data_theme (themeToggle_click s)
   \<and> data_theme (themeToggle_click s) \<in> {Some (js ''light''), Some (js ''dark'')}
   \<and> localStorage (themeToggle_click s) (js ''theme'') \<in> {Some (js ''light''), Some (js ''dark'')}"
  by (simp add: themeToggle_click_theme themeToggle_click_storage)

text \<open>
  C5, as stated, fails. On a first visit the storage is empty and the theme defaults to
  \<open>dark\<close>: two clicks bring the theme back to \<open>dark\<close> but leave \<open>dark\<close> in the
  storage, which held nothing before. The same happens when the storage holds a value
  other than the current theme (here \<open>light\<close> under a \<open>dark\<close> page). And a theme
  that is neither \<open>light\<close> nor \<open>dark\<close> (here \<open>blue\<close>, loaded from the storage) does
  not come back after two clicks.
\<close>

theorem themeToggle_twice_storage_counterexample:
  "data_theme (themeToggle_click (themeToggle_click (page_load Map.empty)))
     = data_theme (page_load Map.empty)
   \<and> localStorage (page_load Map.empty) (js ''theme'') = None
   \<and> localStorage (themeToggle_click (themeToggle_click (page_load Map.empty))) (js ''theme'')
     = Some (js ''dark'')
   \<and> localStorage
       (themeToggle_click (themeToggle_click
          ((page_load Map.empty)\<lparr>localStorage := [js ''theme'' \<mapsto> js ''light'']\<rparr>)))
       (js ''theme'')
     \<noteq> Some (js ''light'')
   \<and> data_theme (themeToggle_click (themeToggle_click (page_load [js ''theme'' \<mapsto> js ''blue''])))
     \<noteq> data_theme (page_load [js ''theme'' \<mapsto> js ''blue''])"
  by (simp add: themeToggle_click_theme themeToggle_click_storage page_load_def
      updateThemeIcon_def or_else_def Let_def)

text \<open>
  C5, amended. When the current theme is \<open>light\<close> or \<open>dark\<close> and the storage holds that
  same value, two clicks on the toggle return both the theme and the storage to what they
  were.
\<close>

theorem themeToggle_twice:
  assumes "data_theme s = Some t"
    and "t = js ''light'' \<or> t = js ''dark''"
    and "localStorage s (js ''theme'') = Some t"
  shows "data_theme (themeToggle_click (themeToggle_click s)) = data_theme s
       \<and> localStorage (themeToggle_click (themeToggle_click s)) = localStorage s"
proof -
  have "(localStorage s)(js ''theme'' \<mapsto> t) = localStorage s"
    using assms(3) by (rule map_upd_triv)
  with assms(1,2) show ?thesis
    by (auto simp: themeToggle_click_theme themeToggle_click_storage)
qed

theorem themeToggle_twice_witness:
  "data_theme (themeToggle_click (themeToggle_click (page_load [js ''theme'' \<mapsto> js ''light''])))
     = Some (js ''light'')
   \<and> localStorage (themeToggle_click (themeToggle_click (page_load [js ''theme'' \<mapsto> js ''light''])))
     = [js ''theme'' \<mapsto> js ''light'']"
proof -
  have 1: "data_theme (page_load [js ''theme'' \<mapsto> js ''light'']) = Some (js ''light'')"
    by (simp add: page_load_def updateThemeIcon_def or_else_def Let_def)
  have 2: "localStorage (page_load [js ''theme'' \<mapsto> js ''light'']) = [js ''theme'' \<mapsto> js ''light'']"
    by (simp add: page_load_def updateThemeIcon_def or_else_def Let_def)
  have 3: "localStorage (page_load [js ''theme'' \<mapsto> js ''light'']) (js ''theme'') = Some (js ''light'')"
    using 2 by simp
  show ?thesis
    using themeToggle_twice [OF 1 _ 3] 1 2 by simp
qed

section \<open>Properties of the rendering\<close>

lemma fold_projectsContainer_appendChild:
  "fold (\<lambda>project. projectsContainer_appendChild (f project)) rs (d\<lparr>projects_container := Some acc\<rparr>)
     = d\<lparr>projects_container := Some (acc @ map f rs)\<rparr>"
  by (induction rs arbitrary: acc) (simp_all add: projectsContainer_appendChild_def)

lemma fold_orgContainer_appendChild:
  "fold (\<lambda>org. orgContainer_appendChild (f org)) rs (d\<lparr>org_container := Some acc\<rparr>)
     = d\<lparr>org_container := Some (acc @ map f rs)\<rparr>"
  by (induction rs arbitrary: acc) (simp_all add: orgContainer_appendChild_def)

text \<open>
  C6. Rendering a table into a container that is present replaces whatever the container
  held by exactly one card per record, in the order of the table.
\<close>

theorem render_one_card_per_record:
  "projects_container (render_projects projects (d\<lparr>projects_container := Some prior\<rparr>))
     = Some (map project_card projects)
   \<and> org_container (render_organizations organizations (d\<lparr>org_container := Some prior'\<rparr>))
     = Some (map org_card organizations)"
proof -
  have "fold (\<lambda>project. projectsContainer_appendChild (project_card project)) projects
          (d\<lparr>projects_container := Some []\<rparr>)
        = d\<lparr>projects_container := Some (map project_card projects)\<rparr>"
    using fold_projectsContainer_appendChild [where acc = "[]"] by simp
  moreover have "fold (\<lambda>org. orgContainer_appendChild (org_card org)) organizations
          (d\<lparr>org_container := Some []\<rparr>)
        = d\<lparr>org_container := Some (map org_card organizations)\<rparr>"
    using fold_orgContainer_appendChild [where acc = "[]"] by simp
  ultimately show ?thesis
    by (simp add: render_projects_def render_organizations_def)
qed

text \<open>
  C7. When the container of a table is absent, rendering that table does nothing: the
  document is left as it was, and there is no error path.
\<close>

theorem render_skipped_without_container:
  "render_projects projects (d\<lparr>projects_container := None\<rparr>) = d\<lparr>projects_container := None\<rparr>
   \<and> render_organizations organizations (d\<lparr>org_container := None\<rparr>) = d\<lparr>org_container := None\<rparr>"
  by (simp add: render_projects_def render_organizations_def)

section \<open>Properties of the particle canvas\<close>

lemma Particle_update_fields:
  "p_x (Particle_update fl w h p) = fl (p_x p + vx p)"
  "p_y (Particle_update fl w h p) = fl (p_y p + vy p)"
  "vx (Particle_update fl w h p) =
     (if fl (p_x p + vx p) < 0 \<or> fl (p_x p + vx p) > w then - vx p else vx p)"
  "vy (Particle_update fl w h p) =
     (if fl (p_y p + vy p) < 0 \<or> fl (p_y p + vy p) > h then - vy p else vy p)"
  "p_size (Particle_update fl w h p) = p_size p"
  by (simp_all add: Particle_update_def Let_def)

lemma Particle_update_vx:
  "vx (Particle_update fl w h p) = vx p \<or> vx (Particle_update fl w h p) = - vx p"
  by (simp add: Particle_update_fields)

lemma Particle_update_vy:
  "vy (Particle_update fl w h p) = vy p \<or> vy (Particle_update fl w h p) = - vy p"
  by (simp add: Particle_update_fields)

lemma Particle_update_abs:
  "\<bar>vx (Particle_update fl w h p)\<bar> = \<bar>vx p\<bar> \<and> \<bar>vy (Particle_update fl w h p)\<bar> = \<bar>vy p\<bar>"
  by (simp add: Particle_update_fields)

lemma fold_update_abs:
  "\<bar>vx (fold (\<lambda>(w, h). Particle_update fl w h) sizes p)\<bar> = \<bar>vx p\<bar>
   \<and> \<bar>vy (fold (\<lambda>(w, h). Particle_update fl w h) sizes p)\<bar> = \<bar>vy p\<bar>"
  by (induction sizes arbitrary: p) (auto simp: Particle_update_abs)

text \<open>
  C9. Whatever the rounding of the additions and the canvas sizes of the successive
  frames, any number of update steps leaves the absolute value of each velocity component
  as it was; one step keeps a component or negates it.
\<close>

theorem velocity_magnitude_invariant:
  "\<bar>vx (fold (\<lambda>(width, height). Particle_update fl width height) sizes p)\<bar> = \<bar>vx p\<bar>
   \<and> \<bar>vy (fold (\<lambda>(width, height). Particle_update fl width height) sizes p)\<bar> = \<bar>vy p\<bar>
   \<and> (vx (Particle_update fl width height p) = vx p
        \<or> vx (Particle_update fl width height p) = - vx p)
   \<and> (vy (Particle_update fl width height p) = vy p
        \<or> vy (Particle_update fl width height p) = - vy p)"
  using fold_update_abs [of fl sizes p] Particle_update_vx [of fl width height p]
    Particle_update_vy [of fl width height p]
  by simp

text \<open>Two rounded additions, the second undoing the first.\<close>

lemma add_then_subtract_rounded:
  fixes fl :: "real \<Rightarrow> real" and u x v :: real
  assumes u: "0 \<le> u"
    and r1: "\<bar>fl (x + v) - (x + v)\<bar> \<le> u * \<bar>x + v\<bar>"
    and r2: "\<bar>fl (fl (x + v) + - v) - (fl (x + v) + - v)\<bar> \<le> u * \<bar>fl (x + v) + - v\<bar>"
  shows "\<bar>fl (fl (x + v) + - v) - x\<bar> \<le> u * (2 + u) * (\<bar>x\<bar> + \<bar>v\<bar>)"
proof -
  define e1 where "e1 = fl (x + v) - (x + v)"
  define e2 where "e2 = fl (fl (x + v) + - v) - (fl (x + v) + - v)"
  have b1: "\<bar>e1\<bar> \<le> u * \<bar>x + v\<bar>"
    using r1 by (simp add: e1_def)
  have "fl (x + v) + - v = x + e1"
    by (simp add: e1_def)
  with r2 have b2: "\<bar>e2\<bar> \<le> u * \<bar>x + e1\<bar>"
    by (simp add: e2_def)
  have s: "\<bar>x + v\<bar> \<le> \<bar>x\<bar> + \<bar>v\<bar>"
    by (rule abs_triangle_ineq)
  have c1: "\<bar>e1\<bar> \<le> u * (\<bar>x\<bar> + \<bar>v\<bar>)"
    using b1 mult_left_mono [OF s u] by linarith
  have "\<bar>x + e1\<bar> \<le> \<bar>x\<bar> + \<bar>e1\<bar>"
    by (rule abs_triangle_ineq)
  then have "\<bar>x + e1\<bar> \<le> (\<bar>x\<bar> + \<bar>v\<bar>) + u * (\<bar>x\<bar> + \<bar>v\<bar>)"
    using c1 by linarith
  then have "u * \<bar>x + e1\<bar> \<le> u * ((\<bar>x\<bar> + \<bar>v\<bar>) + u * (\<bar>x\<bar> + \<bar>v\<bar>))"
    using u by (rule mult_left_mono)
  with b2 have c2: "\<bar>e2\<bar> \<le> u * ((\<bar>x\<bar> + \<bar>v\<bar>) + u * (\<bar>x\<bar> + \<bar>v\<bar>))"
    by linarith
  have "fl (fl (x + v) + - v) - x = e1 + e2"
    by (simp add: e1_def e2_def)
  then have "\<bar>fl (fl (x + v) + - v) - x\<bar> \<le> \<bar>e1\<bar> + \<bar>e2\<bar>"
    using abs_triangle_ineq [of e1 e2] by simp
  also have "\<dots> \<le> u * (\<bar>x\<bar> + \<bar>v\<bar>) + u * ((\<bar>x\<bar> + \<bar>v\<bar>) + u * (\<bar>x\<bar> + \<bar>v\<bar>))"
    using c1 c2 by linarith
  also have "\<dots> = u * (2 + u) * (\<bar>x\<bar> + \<bar>v\<bar>)"
    by (simp add: algebra_simps)
  finally show ?thesis .
qed

text \<open>
  C4. Take a particle \<open>p\<close> strictly inside the canvas that is still strictly inside after
  one update step; let \<open>q\<close> be the particle after that step with both velocity components
  negated and \<open>r\<close> the particle after a second step. If each of the four additions made
  (two per coordinate) rounds with relative error at most \<open>u\<close>, as double addition does
  with \<open>u = 2\<^sup>-\<^sup>5\<^sup>3\<close>, then \<open>r\<close> is back at the position of \<open>p\<close> within
  \<open>u (2 + u) (\<bar>x\<bar> + \<bar>vx\<bar>)\<close> in \<open>x\<close> and likewise in \<open>y\<close>. With exact arithmetic
  (\<open>u = 0\<close>) the position is recovered exactly.
\<close>

theorem update_reversible:
  fixes p :: Particle and fl :: "real \<Rightarrow> real" and width height u :: real
  defines "q \<equiv> (Particle_update fl width height p)
                  \<lparr>vx := - vx (Particle_update fl width height p),
                   vy := - vy (Particle_update fl width height p)\<rparr>"
  defines "r \<equiv> Particle_update fl width height q"
  assumes u: "0 \<le> u"
    and x1: "\<bar>fl (p_x p + vx p) - (p_x p + vx p)\<bar> \<le> u * \<bar>p_x p + vx p\<bar>"
    and x2: "\<bar>fl (p_x q + vx q) - (p_x q + vx q)\<bar> \<le> u * \<bar>p_x q + vx q\<bar>"
    and y1: "\<bar>fl (p_y p + vy p) - (p_y p + vy p)\<bar> \<le> u * \<bar>p_y p + vy p\<bar>"
    and y2: "\<bar>fl (p_y q + vy q) - (p_y q + vy q)\<bar> \<le> u * \<bar>p_y q + vy q\<bar>"
    and before: "0 < p_x p" "p_x p < width" "0 < p_y p" "p_y p < height"
    and after: "0 < p_x (Particle_update fl width height p)"
      "p_x (Particle_update fl width height p) < width"
      "0 < p_y (Particle_update fl width height p)"
      "p_y (Particle_update fl width height p) < height"
  shows "\<bar>p_x r - p_x p\<bar> \<le> u * (2 + u) * (\<bar>p_x p\<bar> + \<bar>vx p\<bar>)
       \<and> \<bar>p_y r - p_y p\<bar> \<le> u * (2 + u) * (\<bar>p_y p\<bar> + \<bar>vy p\<bar>)"
proof -
  have x: "\<not> (fl (p_x p + vx p) < 0 \<or> fl (p_x p + vx p) > width)"
    and y: "\<not> (fl (p_y p + vy p) < 0 \<or> fl (p_y p + vy p) > height)"
    using after by (simp_all add: Particle_update_fields)
  have q: "p_x q = fl (p_x p + vx p)" "vx q = - vx p"
    "p_y q = fl (p_y p + vy p)" "vy q = - vy p"
    using x y by (simp_all add: q_def Particle_update_fields)
  have "\<bar>fl (fl (p_x p + vx p) + - vx p) - p_x p\<bar> \<le> u * (2 + u) * (\<bar>p_x p\<bar> + \<bar>vx p\<bar>)"
    using u x1 x2 unfolding q by (rule add_then_subtract_rounded)
  moreover have "\<bar>fl (fl (p_y p + vy p) + - vy p) - p_y p\<bar> \<le> u * (2 + u) * (\<bar>p_y p\<bar> + \<bar>vy p\<bar>)"
    using u y1 y2 unfolding q by (rule add_then_subtract_rounded)
  ultimately show ?thesis
    by (simp add: r_def Particle_update_fields q)
qed

theorem update_reversible_witness:
  "(let p = \<lparr>p_x = 10, p_y = 10, vx = 1, vy = - 1, p_size = 1\<rparr>;
        q = Particle_update (\<lambda>a. a * (1025 / 1024)) 100 100 p;
        q = q\<lparr>vx := - vx q, vy := - vy q\<rparr>;
        r = Particle_update (\<lambda>a. a * (1025 / 1024)) 100 100 q
    in \<bar>p_x r - 10\<bar> \<le> 1 / 1024 * (2 + 1 / 1024) * 11
     \<and> \<bar>p_y r - 10\<bar> \<le> 1 / 1024 * (2 + 1 / 1024) * 11)"
  using update_reversible [where u = "1 / 1024" and fl = "\<lambda>a. a * (1025 / 1024)"
      and p = "\<lparr>p_x = 10, p_y = 10, vx = 1, vy = - 1, p_size = 1\<rparr>"
      and width = 100 and height = 100]
  by (simp add: Particle_update_fields Let_def)

lemma segments_draw: "segments (draw fl theme p @ calls) = segments calls"
  by (simp add: draw_def Let_def)

lemma discs_draw: "discs (draw fl theme p @ calls) = (p_x p, p_y p) # discs calls"
  by (simp add: draw_def Let_def)

lemma segments_connect:
  "segments (connect fl theme p rest @ calls) =
     map (\<lambda>p2. ((p_x p, p_y p), (p_x p2, p_y p2)))
       (filter (\<lambda>p2. particle_dist fl p p2 < 120) rest)
     @ segments calls"
  by (induction rest) (simp_all add: Let_def)

lemma discs_connect: "discs (connect fl theme p rest @ calls) = discs calls"
  by (induction rest) (simp_all add: Let_def)

lemma segments_forEach:
  "segments (snd (forEach_particles fl theme w h ps) @ calls) =
     concat (map (\<lambda>i. let p = Particle_update fl w h (ps ! i) in
                    map (\<lambda>p2. ((p_x p, p_y p), (p_x p2, p_y p2)))
                      (filter (\<lambda>p2. particle_dist fl p p2 < 120) (drop (Suc i) ps)))
              [0..<length ps])
     @ segments calls"
proof (induction ps)
  case Nil
  then show ?case by simp
next
  case (Cons p rest)
  have upt: "[0..<length (p # rest)] = 0 # map Suc [0..<length rest]"
    by (simp add: upt_conv_Cons map_Suc_upt del: upt_Suc)
  show ?case
    unfolding upt
    using Cons.IH
    by (simp add: Let_def split_beta segments_draw segments_connect comp_def del: upt_Suc)
qed

lemma discs_forEach:
  "discs (snd (forEach_particles fl theme w h ps) @ calls) =
     map (\<lambda>p. (p_x p, p_y p)) (fst (forEach_particles fl theme w h ps)) @ discs calls"
  by (induction ps arbitrary: calls)
     (simp_all add: Let_def split_beta discs_draw discs_connect)

lemma forEach_particles_fst:
  "fst (forEach_particles fl theme w h ps) = map (Particle_update fl w h) ps"
  by (induction ps) (simp_all add: Let_def split_beta)

text \<open>With exact arithmetic and equal ordinates the distance is the difference of the abscissas.\<close>

lemma particle_dist_exact_same_y:
  "p_y p = p_y p2 \<Longrightarrow> particle_dist (\<lambda>a. a) p p2 = \<bar>p_x p - p_x p2\<bar>"
  by (simp add: particle_dist_def Let_def)

text \<open>
  C3, as stated, fails: the two positions compared are not positions the particles hold
  at one time. All numbers below are multiples of 1/16 far below \<open>2\<^sup>5\<^sup>3\<close>, on which
  the double arithmetic of the code is exact, so \<open>fl\<close> is the identity. First frame: a
  line is stroked from (100, 100) to (219.9375, 100), while the two discs filled in that
  frame, at the positions the particles have after it, are 120.0625 apart. Second frame:
  the particles are 119.9375 apart when the frame begins (and the first one moves away),
  and no line is stroked.
\<close>

theorem line_and_positions_counterexample:
  "segments (snd (animateNetwork (\<lambda>a. a) (js ''dark'') 1000 1000
      [\<lparr>p_x = 100, p_y = 100, vx = 0, vy = 0, p_size = 1\<rparr>,
       \<lparr>p_x = 219.9375, p_y = 100, vx = 0.125, vy = 0, p_size = 1\<rparr>]))
     = [((100, 100), (219.9375, 100))]
   \<and> discs (snd (animateNetwork (\<lambda>a. a) (js ''dark'') 1000 1000
      [\<lparr>p_x = 100, p_y = 100, vx = 0, vy = 0, p_size = 1\<rparr>,
       \<lparr>p_x = 219.9375, p_y = 100, vx = 0.125, vy = 0, p_size = 1\<rparr>]))
     = [(100, 100), (220.0625, 100)]
   \<and> sqrt ((220.0625 - 100)\<^sup>2 + (100 - 100)\<^sup>2) = (120.0625 :: real)
   \<and> segments (snd (animateNetwork (\<lambda>a. a) (js ''dark'') 1000 1000
      [\<lparr>p_x = 100, p_y = 100, vx = - 0.125, vy = 0, p_size = 1\<rparr>,
       \<lparr>p_x = 219.9375, p_y = 100, vx = 0, vy = 0, p_size = 1\<rparr>]))
     = []
   \<and> sqrt ((219.9375 - 100)\<^sup>2 + (100 - 100)\<^sup>2) = (119.9375 :: real)"
proof -
  have a: "sqrt ((220.0625 - 100)\<^sup>2 + (100 - 100)\<^sup>2) = (120.0625 :: real)"
    using real_sqrt_abs [of "120.0625"] by simp
  have b: "sqrt ((219.9375 - 100)\<^sup>2 + (100 - 100)\<^sup>2) = (119.9375 :: real)"
    using real_sqrt_abs [of "119.9375"] by simp
  show ?thesis
    unfolding a b
    by (simp add: animateNetwork_def split_beta Let_def Particle_update_def draw_def
        particle_dist_exact_same_y)
qed

text \<open>
  C3, amended. In one frame each unordered pair of particles is compared once, the one
  earlier in the array (index \<open>i\<close>) at its position after its update step in this frame,
  the later one at its position before its step. A line is stroked between these two
  positions if and only if the distance the code computes for them, the rounded
  \<open>sqrt (dx * dx + dy * dy)\<close> of the rounded differences, is strictly less than 120; when
  it is exactly 120 nothing is stroked. With exact arithmetic the distance computed is
  the Euclidean distance. The discs of the frame are filled at the positions after the
  update steps.
\<close>

theorem line_iff_computed_distance_below_120:
  "segments (snd (animateNetwork fl theme width height particles)) =
     concat (map (\<lambda>i. let p = Particle_update fl width height (particles ! i) in
                    map (\<lambda>p2. ((p_x p, p_y p), (p_x p2, p_y p2)))
                      (filter (\<lambda>p2.
                           fl (sqrt (fl (fl (fl (p_x p - p_x p2) * fl (p_x p - p_x p2))
                                         + fl (fl (p_y p - p_y p2) * fl (p_y p - p_y p2)))))
                           < 120)
                         (drop (Suc i) particles)))
              [0..<length particles])
   \<and> segments (connect fl theme p [p2]) =
       (if fl (sqrt (fl (fl (fl (p_x p - p_x p2) * fl (p_x p - p_x p2))
                         + fl (fl (p_y p - p_y p2) * fl (p_y p - p_y p2)))))
           < 120
        then [((p_x p, p_y p), (p_x p2, p_y p2))] else [])
   \<and> segments (connect (\<lambda>a. a) theme p [p2]) =
       (if sqrt ((p_x p - p_x p2)\<^sup>2 + (p_y p - p_y p2)\<^sup>2) < 120
        then [((p_x p, p_y p), (p_x p2, p_y p2))] else [])
   \<and> discs (snd (animateNetwork fl theme width height particles)) =
       map (\<lambda>p. (p_x p, p_y p)) (map (Particle_update fl width height) particles)"
proof -
  have 1: "segments (snd (animateNetwork fl theme width height particles)) =
     concat (map (\<lambda>i. let p = Particle_update fl width height (particles ! i) in
                    map (\<lambda>p2. ((p_x p, p_y p), (p_x p2, p_y p2)))
                      (filter (\<lambda>p2. particle_dist fl p p2 < 120) (drop (Suc i) particles)))
              [0..<length particles])"
    using segments_forEach [of fl theme width height particles "[]"]
    by (simp add: animateNetwork_def split_beta)
  have 2: "segments (connect f theme p [p2]) =
       (if particle_dist f p p2 < 120 then [((p_x p, p_y p), (p_x p2, p_y p2))] else [])" for f
    by (simp add: Let_def)
  have 3: "discs (snd (animateNetwork fl theme width height particles)) =
       map (\<lambda>p. (p_x p, p_y p)) (map (Particle_update fl width height) particles)"
    using discs_forEach [of fl theme width height particles "[]"]
    by (simp add: animateNetwork_def split_beta forEach_particles_fst)
  have 4: "particle_dist (\<lambda>a. a) p p2 = sqrt ((p_x p - p_x p2)\<^sup>2 + (p_y p - p_y p2)\<^sup>2)"
    by (simp add: particle_dist_def Let_def power2_eq_square)
  show ?thesis
    using 1 2 [of fl] 2 [of "\<lambda>a. a"] 3
    unfolding 4
    by (simp only: particle_dist_def Let_def)
qed

section \<open>Properties of the text scramble\<close>

lemma Math_random_simps:
  "fst (Math_random w) = random w (drawn w)"
  "snd (Math_random w) = w\<lparr>drawn := Suc (drawn w)\<rparr>"
  by (simp_all add: Math_random_def)

lemma randomChar_state: "snd (randomChar w) = w\<lparr>drawn := Suc (drawn w)\<rparr>"
  by (simp add: randomChar_def Math_random_def Let_def)

text \<open>The loop over the queue only consumes random numbers.\<close>

lemma update_queue_state:
  "\<exists>d. snd (snd (snd (update_queue qs (out, c, w)))) = w\<lparr>drawn := d\<rparr>"
proof (induction qs arbitrary: out c w)
  case Nil
  have "w = w\<lparr>drawn := drawn w\<rparr>" by simp
  then show ?case by (metis update_queue.simps(1) snd_conv)
next
  case (Cons q qs)
  note IH0 = Cons.IH [where w = w]
  note IH1 = Cons.IH [where w = "w\<lparr>drawn := Suc (drawn w)\<rparr>", simplified]
  note IH2 = Cons.IH [where w = "w\<lparr>drawn := Suc (Suc (drawn w))\<rparr>", simplified]
  show ?case
    by (simp add: Let_def split_beta randomChar_state Math_random_simps IH0 IH1 IH2)
qed

lemma update_queue_static:
  "map (\<lambda>q. (slot_from q, slot_to q, slot_start q, slot_end q)) (fst (update_queue qs (out, c, w)))
     = map (\<lambda>q. (slot_from q, slot_to q, slot_start q, slot_end q)) qs"
  by (induction qs arbitrary: out c w) (simp_all add: Let_def split_beta)

lemma update_queue_length: "length (fst (update_queue qs (out, c, w))) = length qs"
  using update_queue_static [of qs out c w, THEN arg_cong, of length] by simp

lemma update_queue_completed:
  "fst (snd (snd (update_queue qs (out, c, w))))
     = c + length (filter (\<lambda>q. slot_end q \<le> frame w) qs)"
  by (induction qs arbitrary: out c w)
     (simp_all add: Let_def split_beta randomChar_state Math_random_simps)

lemma update_queue_output:
  "list_all (\<lambda>q. slot_end q \<le> frame w) qs \<Longrightarrow>
   fst (snd (update_queue qs (out, c, w))) = out @ concat (map slot_to qs)"
  by (induction qs arbitrary: out c w) (simp_all add: Let_def split_beta)

lemma filter_all_length: "(length (filter P xs) = length xs) = list_all P xs"
proof (induction xs)
  case Nil
  then show ?case by simp
next
  case (Cons a xs)
  have "length (filter P xs) \<noteq> Suc (length xs)"
    using length_filter_le [of P xs] by linarith
  with Cons show ?case by auto
qed

lemma update_queue_all_completed:
  "(fst (snd (snd (update_queue qs (out, 0, w)))) = length (fst (update_queue qs (out, 0, w))))
     = list_all (\<lambda>q. slot_end q \<le> frame w) qs"
  by (simp add: update_queue_completed update_queue_length filter_all_length)

text \<open>What one run of \<open>update\<close> does to each field.\<close>

lemma TextScramble_update_fields:
  "chars (TextScramble_update w) = chars w"
  "resolve (TextScramble_update w) = resolve w"
  "next_promise (TextScramble_update w) = next_promise w"
  "random (TextScramble_update w) = random w"
  "scheduled (TextScramble_update w) =
     (if list_all (\<lambda>q. slot_end q \<le> frame w) (queue w) then scheduled w
      else scheduled w @ [next_handle w])"
  "frameRequest (TextScramble_update w) =
     (if list_all (\<lambda>q. slot_end q \<le> frame w) (queue w) then frameRequest w
      else Some (next_handle w))"
  "next_handle (TextScramble_update w) =
     (if list_all (\<lambda>q. slot_end q \<le> frame w) (queue w) then next_handle w
      else Suc (next_handle w))"
  "frame (TextScramble_update w) =
     (if list_all (\<lambda>q. slot_end q \<le> frame w) (queue w) then frame w else frame w + 1)"
  "resolved (TextScramble_update w) =
     (if list_all (\<lambda>q. slot_end q \<le> frame w) (queue w)
      then (case resolve w of None \<Rightarrow> resolved w | Some p \<Rightarrow> insert p (resolved w))
      else resolved w)"
proof -
  obtain d where d: "snd (snd (snd (update_queue (queue w) ([], 0, w)))) = w\<lparr>drawn := d\<rparr>"
    using update_queue_state by blast
  note all = update_queue_all_completed [of "queue w" "[]" w]
  show "chars (TextScramble_update w) = chars w"
    "resolve (TextScramble_update w) = resolve w"
    "next_promise (TextScramble_update w) = next_promise w"
    "random (TextScramble_update w) = random w"
    "scheduled (TextScramble_update w) =
     (if list_all (\<lambda>q. slot_end q \<le> frame w) (queue w) then scheduled w
      else scheduled w @ [next_handle w])"
  "frameRequest (TextScramble_update w) =
     (if list_all (\<lambda>q. slot_end q \<le> frame w) (queue w) then frameRequest w
      else Some (next_handle w))"
  "next_handle (TextScramble_update w) =
     (if list_all (\<lambda>q. slot_end q \<le> frame w) (queue w) then next_handle w
      else Suc (next_handle w))"
  "frame (TextScramble_update w) =
     (if list_all (\<lambda>q. slot_end q \<le> frame w) (queue w) then frame w else frame w + 1)"
  "resolved (TextScramble_update w) =
     (if list_all (\<lambda>q. slot_end q \<le> frame w) (queue w)
      then (case resolve w of None \<Rightarrow> resolved w | Some p \<Rightarrow> insert p (resolved w))
      else resolved w)"
    using all
    by (simp_all add: TextScramble_update_def split_beta Let_def d call_resolve_def
        requestAnimationFrame_def split: option.split)
qed

lemma TextScramble_update_static:
  "map (\<lambda>q. (slot_from q, slot_to q, slot_start q, slot_end q)) (queue (TextScramble_update w))
     = map (\<lambda>q. (slot_from q, slot_to q, slot_start q, slot_end q)) (queue w)"
  by (simp add: TextScramble_update_def split_beta Let_def call_resolve_def
      requestAnimationFrame_def update_queue_static split: option.split)

lemma TextScramble_update_settled:
  assumes "list_all (\<lambda>q. slot_end q \<le> frame w) (queue w)"
  shows "innerHTML (el (TextScramble_update w)) = concat (map slot_to (queue w))"
  using assms update_queue_all_completed [of "queue w" "[]" w]
    update_queue_output [of w "queue w" "[]" 0]
  by (simp add: TextScramble_update_def split_beta Let_def call_resolve_def split: option.split)

lemma push_slot_fields:
  "el (push_slot old new i w) = el w"
  "chars (push_slot old new i w) = chars w"
  "frame (push_slot old new i w) = frame w"
  "frameRequest (push_slot old new i w) = frameRequest w"
  "resolve (push_slot old new i w) = resolve w"
  "scheduled (push_slot old new i w) = scheduled w"
  "next_handle (push_slot old new i w) = next_handle w"
  "next_promise (push_slot old new i w) = next_promise w"
  "resolved (push_slot old new i w) = resolved w"
  "random (push_slot old new i w) = random w"
  by (simp_all add: push_slot_def Math_random_def Let_def)

lemma fold_push_slot_fields:
  "el (fold (push_slot old new) is w) = el w
   \<and> chars (fold (push_slot old new) is w) = chars w
   \<and> frame (fold (push_slot old new) is w) = frame w
   \<and> frameRequest (fold (push_slot old new) is w) = frameRequest w
   \<and> resolve (fold (push_slot old new) is w) = resolve w
   \<and> scheduled (fold (push_slot old new) is w) = scheduled w
   \<and> next_handle (fold (push_slot old new) is w) = next_handle w
   \<and> next_promise (fold (push_slot old new) is w) = next_promise w
   \<and> resolved (fold (push_slot old new) is w) = resolved w
   \<and> random (fold (push_slot old new) is w) = random w"
  by (induction "is" arbitrary: w) (simp_all add: push_slot_fields)

lemma push_slot_queue:
  "\<exists>a b. queue (push_slot old new i w) =
     queue w @ [\<lparr>slot_from = char_at old i, slot_to = char_at new i,
                 slot_start = \<lfloor>random w a * 40\<rfloor>,
                 slot_end = \<lfloor>random w a * 40\<rfloor> + \<lfloor>random w b * 40\<rfloor>, slot_char = None\<rparr>]"
  by (auto simp: push_slot_def Math_random_def Let_def)

lemma fold_push_slot_to:
  "map slot_to (queue (fold (push_slot old new) is w)) = map slot_to (queue w) @ map (char_at new) is"
proof (induction "is" arbitrary: w)
  case Nil
  then show ?case by simp
next
  case (Cons i "is")
  have "map slot_to (queue (push_slot old new i w)) = map slot_to (queue w) @ [char_at new i]"
    using push_slot_queue [of old new i w] by auto
  with Cons show ?case by simp
qed

lemma fold_push_slot_length:
  "length (queue (fold (push_slot old new) is w)) = length (queue w) + length is"
  using fold_push_slot_to [of old new "is" w, THEN arg_cong, of length] by simp

lemma floor_random_40:
  fixes r :: real
  assumes "0 \<le> r" "r < 1"
  shows "0 \<le> \<lfloor>r * 40\<rfloor> \<and> \<lfloor>r * 40\<rfloor> < 40"
proof -
  have "r * 40 < 40" using assms by simp
  then have "\<lfloor>r * 40\<rfloor> < 40" by (simp add: floor_less_iff)
  moreover have "0 \<le> \<lfloor>r * 40\<rfloor>" using assms by simp
  ultimately show ?thesis by simp
qed

lemma fold_push_slot_bounds:
  assumes rnd: "\<forall>i. 0 \<le> random w i \<and> random w i < 1"
    and "list_all (\<lambda>q. 0 \<le> slot_start q \<and> slot_start q < 40
            \<and> slot_start q \<le> slot_end q \<and> slot_end q - slot_start q < 40) (queue w)"
  shows "list_all (\<lambda>q. 0 \<le> slot_start q \<and> slot_start q < 40
            \<and> slot_start q \<le> slot_end q \<and> slot_end q - slot_start q < 40)
          (queue (fold (push_slot old new) is w))"
  using assms
proof (induction "is" arbitrary: w)
  case Nil
  then show ?case by simp
next
  case (Cons i "is")
  obtain a b where q: "queue (push_slot old new i w) =
     queue w @ [\<lparr>slot_from = char_at old i, slot_to = char_at new i,
                 slot_start = \<lfloor>random w a * 40\<rfloor>,
                 slot_end = \<lfloor>random w a * 40\<rfloor> + \<lfloor>random w b * 40\<rfloor>, slot_char = None\<rparr>]"
    using push_slot_queue [of old new i w] by blast
  have "list_all (\<lambda>q. 0 \<le> slot_start q \<and> slot_start q < 40
            \<and> slot_start q \<le> slot_end q \<and> slot_end q - slot_start q < 40)
          (queue (push_slot old new i w))"
    using Cons.prems floor_random_40 [of "random w a"] floor_random_40 [of "random w b"]
    by (simp add: q)
  moreover have "\<forall>j. 0 \<le> random (push_slot old new i w) j \<and> random (push_slot old new i w) j < 1"
    using Cons.prems(1) by (simp add: push_slot_fields)
  ultimately show ?case
    using Cons.IH [of "push_slot old new i w"] by simp
qed

lemma concat_char_at: "concat (map (char_at s) [0..<n]) = take n s"
proof (induction n)
  case 0
  then show ?case by simp
next
  case (Suc n)
  show ?case
  proof (cases "n < length s")
    case True
    then show ?thesis using Suc by (simp add: char_at_def take_Suc_conv_app_nth)
  next
    case False
    then show ?thesis using Suc by (simp add: char_at_def)
  qed
qed

lemma setText_unfold:
  "setText old new w = (next_promise w, TextScramble_update (before_update old new w))"
  by (simp add: setText_def new_Promise_def Let_def before_update_def fold_push_slot_fields)

lemma cancelAnimationFrame_fields:
  "el (cancelAnimationFrame h w) = el w"
  "chars (cancelAnimationFrame h w) = chars w"
  "queue (cancelAnimationFrame h w) = queue w"
  "frame (cancelAnimationFrame h w) = frame w"
  "frameRequest (cancelAnimationFrame h w) = frameRequest w"
  "resolve (cancelAnimationFrame h w) = resolve w"
  "next_handle (cancelAnimationFrame h w) = next_handle w"
  "next_promise (cancelAnimationFrame h w) = next_promise w"
  "resolved (cancelAnimationFrame h w) = resolved w"
  "random (cancelAnimationFrame h w) = random w"
  "scheduled (cancelAnimationFrame h w) =
     (case h of None \<Rightarrow> scheduled w | Some h \<Rightarrow> removeAll h (scheduled w))"
  by (simp_all add: cancelAnimationFrame_def split: option.split)

lemma before_update_fields:
  "frame (before_update old new w) = 0"
  "frameRequest (before_update old new w) = frameRequest w"
  "resolve (before_update old new w) = Some (next_promise w)"
  "next_handle (before_update old new w) = next_handle w"
  "next_promise (before_update old new w) = Suc (next_promise w)"
  "resolved (before_update old new w) = resolved w"
  "random (before_update old new w) = random w"
  "scheduled (before_update old new w) =
     (case frameRequest w of None \<Rightarrow> scheduled w | Some h \<Rightarrow> removeAll h (scheduled w))"
  by (simp_all add: before_update_def cancelAnimationFrame_fields fold_push_slot_fields
      split: option.split)

lemma before_update_queue:
  "length (queue (before_update old new w)) = max (length old) (length new)"
  "concat (map slot_to (queue (before_update old new w))) = new"
  by (simp_all add: before_update_def cancelAnimationFrame_fields fold_push_slot_length
      fold_push_slot_to concat_char_at)

lemma before_update_bounds:
  assumes "\<forall>i. 0 \<le> random w i \<and> random w i < 1"
  shows "list_all (\<lambda>q. 0 \<le> slot_start q \<and> slot_start q < 40
            \<and> slot_start q \<le> slot_end q \<and> slot_end q - slot_start q < 40)
          (queue (before_update old new w))"
  using assms
  by (simp add: before_update_def cancelAnimationFrame_fields fold_push_slot_bounds)

subsection \<open>At most one scheduled callback\<close>

lemma TextScramble_update_inv:
  assumes "scheduled w = []"
  shows "loop_inv (TextScramble_update w)"
  using assms by (simp add: loop_inv_def TextScramble_update_fields split: option.split)

lemma before_update_scheduled:
  assumes "loop_inv w"
  shows "scheduled (before_update old new w) = []"
  using assms by (auto simp: loop_inv_def before_update_fields split: option.splits)

lemma setText_inv: "loop_inv w \<Longrightarrow> loop_inv (snd (setText old new w))"
  by (simp add: setText_unfold TextScramble_update_inv before_update_scheduled)

lemma run_frame_callback_inv: "loop_inv w \<Longrightarrow> loop_inv (run_frame_callback h w)"
proof (cases "h \<in> set (scheduled w)")
  case True
  assume "loop_inv w"
  with True have "removeAll h (scheduled w) = []"
    by (auto simp: loop_inv_def split: option.splits)
  then have "loop_inv (TextScramble_update (w\<lparr>scheduled := removeAll h (scheduled w)\<rparr>))"
    by (intro TextScramble_update_inv) simp
  with True show ?thesis by (simp add: run_frame_callback_def)
next
  case False
  assume "loop_inv w"
  with False show ?thesis by (simp add: run_frame_callback_def)
qed

lemma step_inv: "loop_inv w \<Longrightarrow> loop_inv (step ev w)"
  by (cases ev) (simp_all add: setText_inv run_frame_callback_inv)

lemma run_inv: "loop_inv w \<Longrightarrow> loop_inv (run evs w)"
  unfolding run_def by (induction evs arbitrary: w) (simp_all add: step_inv)

lemma new_TextScramble_inv: "loop_inv (new_TextScramble e rnd)"
  by (simp add: loop_inv_def new_TextScramble_def)

lemma loop_inv_length: "loop_inv w \<Longrightarrow> length (scheduled w) \<le> 1"
  by (auto simp: loop_inv_def split: option.splits)

lemma setText_scheduled_fresh:
  assumes "loop_inv w"
  shows "set (scheduled w) \<inter> set (scheduled (snd (setText old new w))) = {}"
proof -
  have "scheduled (before_update old new w) = []"
    using assms by (rule before_update_scheduled)
  then have "set (scheduled (snd (setText old new w))) \<subseteq> {next_handle w}"
    by (simp add: setText_unfold TextScramble_update_fields before_update_fields)
  moreover have "next_handle w \<notin> set (scheduled w)"
    using assms by (auto simp: loop_inv_def list_all_iff)
  ultimately show ?thesis by auto
qed

text \<open>
  C2. In every state an instance can reach from its construction, by calls of \<open>setText\<close>
  and frame callbacks in any order, at most one callback of its \<open>update\<close> is scheduled.
  A call of \<open>setText\<close> in such a state leaves at most one scheduled, and none of those
  that were scheduled before the call: the pending one is cancelled before \<open>update\<close>
  starts on the new queue.
\<close>

theorem at_most_one_update_loop:
  "(let w = run evs (new_TextScramble e rnd);
        w' = snd (setText oldText newText w)
    in length (scheduled w) \<le> 1
       \<and> length (scheduled w') \<le> 1
       \<and> set (scheduled w) \<inter> set (scheduled w') = {})"
proof -
  have inv: "loop_inv (run evs (new_TextScramble e rnd))"
    by (simp add: run_inv new_TextScramble_inv)
  show ?thesis
    using loop_inv_length [OF inv] loop_inv_length [OF setText_inv [OF inv]]
      setText_scheduled_fresh [OF inv]
    by (simp add: Let_def)
qed

subsection \<open>A superseded promise\<close>

lemma step_unresolved:
  assumes "p < next_promise w" "resolve w \<noteq> Some p" "p \<notin> resolved w"
  shows "p < next_promise (step ev w) \<and> resolve (step ev w) \<noteq> Some p \<and> p \<notin> resolved (step ev w)"
proof (cases ev)
  case (SetText old new)
  with assms show ?thesis
    by (simp add: setText_unfold TextScramble_update_fields before_update_fields)
next
  case (RunFrameCallback h)
  with assms show ?thesis
    by (auto simp: run_frame_callback_def TextScramble_update_fields split: option.splits)
qed

lemma run_unresolved:
  assumes "p < next_promise w" "resolve w \<noteq> Some p" "p \<notin> resolved w"
  shows "p < next_promise (run evs w) \<and> resolve (run evs w) \<noteq> Some p \<and> p \<notin> resolved (run evs w)"
  using assms unfolding run_def
proof (induction evs arbitrary: w)
  case Nil
  then show ?case by simp
next
  case (Cons ev evs)
  from step_unresolved [OF Cons.prems] Cons.IH [of "step ev w"] show ?case by simp
qed

lemma step_next_promise: "next_promise w \<le> next_promise (step ev w)"
  by (cases ev)
     (simp_all add: setText_unfold TextScramble_update_fields before_update_fields
        run_frame_callback_def)

lemma run_next_promise: "next_promise w \<le> next_promise (run evs w)"
  unfolding run_def
proof (induction evs arbitrary: w)
  case Nil
  then show ?case by simp
next
  case (Cons ev evs)
  from step_next_promise [of w ev] Cons.IH [of "step ev w"] show ?case by simp
qed

text \<open>
  C8. Take any reachable state, a call of \<open>setText\<close> in it returning the promise \<open>p\<close>,
  any events after it, and then a second call of \<open>setText\<close>. If \<open>p\<close> has not been resolved
  when the second call is made, it is not resolved after any further events either.
\<close>

theorem superseded_promise_never_resolved:
  "(let w = run evsA (new_TextScramble e rnd);
        (p, w1) = setText oldTextA newTextA w;
        w2 = run evsB w1;
        (p', w3) = setText oldTextB newTextB w2
    in p \<notin> resolved w2 \<longrightarrow> p \<notin> resolved (run evsC w3))"
proof -
  define w where "w = run evsA (new_TextScramble e rnd)"
  define w1 where "w1 = snd (setText oldTextA newTextA w)"
  define w2 where "w2 = run evsB w1"
  define w3 where "w3 = snd (setText oldTextB newTextB w2)"
  define p where "p = next_promise w"
  have "p < next_promise w1"
    by (simp add: p_def w1_def setText_unfold TextScramble_update_fields before_update_fields)
  then have lt: "p < next_promise w2"
    using run_next_promise [of w1 evsB] by (simp add: w2_def)
  have "p \<notin> resolved (run evsC w3)" if "p \<notin> resolved w2"
  proof -
    have "p < next_promise w3 \<and> resolve w3 \<noteq> Some p \<and> p \<notin> resolved w3"
      using lt that
      by (simp add: w3_def setText_unfold TextScramble_update_fields before_update_fields)
    then show ?thesis using run_unresolved [of p w3 evsC] by simp
  qed
  then show ?thesis
    by (simp add: Let_def split_beta setText_unfold w_def w1_def w2_def w3_def p_def)
qed

theorem superseded_promise_never_resolved_witness:
  "(let w = new_TextScramble createElement_div (\<lambda>_. 1 / 2);
        (p, w1) = setText [] (js ''a'') w;
        (p', w3) = setText [] (js ''b'') w1
    in p = 0 \<and> p \<notin> resolved w1 \<and> p \<notin> resolved (run [RunFrameCallback 2] w3))"
proof -
  let ?w = "new_TextScramble createElement_div (\<lambda>_. 1 / 2)"
  let ?w1 = "snd (setText [] (js ''a'') ?w)"
  let ?w3 = "snd (setText [] (js ''b'') ?w1)"
  have p: "fst (setText [] (js ''a'') ?w) = 0"
    by (simp add: setText_unfold new_TextScramble_def)
  have q: "queue (before_update [] (js ''a'') ?w)
      = [\<lparr>slot_from = [], slot_to = js ''a'', slot_start = 20, slot_end = 40, slot_char = None\<rparr>]"
    by (simp add: before_update_def cancelAnimationFrame_def new_TextScramble_def push_slot_def
        Math_random_def char_at_def Let_def)
  have unresolved: "0 \<notin> resolved ?w1"
    using q
    by (simp add: setText_unfold TextScramble_update_fields before_update_fields
        new_TextScramble_def)
  from superseded_promise_never_resolved
    [where evsA = "[]" and e = createElement_div and rnd = "\<lambda>_. 1 / 2"
       and oldTextA = "[]" and newTextA = "js ''a''" and evsB = "[]"
       and oldTextB = "[]" and newTextB = "js ''b''" and evsC = "[RunFrameCallback 2]"]
  have "0 \<notin> resolved (run [RunFrameCallback 2] ?w3)"
    using p unresolved by (simp add: Let_def split_beta run_def)
  with p unresolved show ?thesis
    by (simp add: Let_def split_beta)
qed

lemma update_queue_to:
  "map slot_to (fst (update_queue qs (out, c, w))) = map slot_to qs"
  using update_queue_static [of qs out c w, THEN arg_cong, of "map (\<lambda>(a, b, c, d). b)"]
  by (simp add: comp_def)

lemma update_queue_end:
  "map slot_end (fst (update_queue qs (out, c, w))) = map slot_end qs"
  using update_queue_static [of qs out c w, THEN arg_cong, of "map (\<lambda>(a, b, c, d). d)"]
  by (simp add: comp_def)

lemma TextScramble_update_to_end:
  "map slot_to (queue (TextScramble_update w)) = map slot_to (queue w)"
  "map slot_end (queue (TextScramble_update w)) = map slot_end (queue w)"
  by (simp_all add: TextScramble_update_def split_beta Let_def call_resolve_def
      requestAnimationFrame_def update_queue_to update_queue_end split: option.split)

lemma list_all_end: "list_all (\<lambda>q. slot_end q \<le> f) qs = list_all (\<lambda>e. e \<le> f) (map slot_end qs)"
  by (simp add: list_all_iff)

lemma animation_frame_idle: "scheduled w = [] \<Longrightarrow> animation_frame w = w"
  by (simp add: animation_frame_def)

lemma animation_frame_one:
  "scheduled w = [h] \<Longrightarrow> animation_frame w = TextScramble_update (w\<lparr>scheduled := []\<rparr>)"
  by (simp add: animation_frame_def run_frame_callback_def)

text \<open>
  The state \<open>k\<close> animation frames after an \<open>update\<close> at frame 0 with nothing else
  scheduled: either the text has settled and nothing is scheduled, or the loop is at
  frame \<open>k + 1\<close> with one callback scheduled and some slot ends after frame \<open>k\<close>.
\<close>

lemma frames_after_update:
  assumes "scheduled w0 = []" "frame w0 = 0"
  shows "(innerHTML (el ((animation_frame ^^ k) (TextScramble_update w0)))
            = concat (map slot_to (queue w0))
          \<and> scheduled ((animation_frame ^^ k) (TextScramble_update w0)) = [])
       \<or> ((\<exists>h. scheduled ((animation_frame ^^ k) (TextScramble_update w0)) = [h])
          \<and> frame ((animation_frame ^^ k) (TextScramble_update w0)) = int k + 1
          \<and> map slot_to (queue ((animation_frame ^^ k) (TextScramble_update w0)))
              = map slot_to (queue w0)
          \<and> map slot_end (queue ((animation_frame ^^ k) (TextScramble_update w0)))
              = map slot_end (queue w0)
          \<and> \<not> list_all (\<lambda>e. e \<le> int k) (map slot_end (queue w0)))"
proof (induction k)
  case 0
  show ?case
  proof (cases "list_all (\<lambda>q. slot_end q \<le> frame w0) (queue w0)")
    case True
    then show ?thesis
      using assms by (simp add: TextScramble_update_settled TextScramble_update_fields)
  next
    case False
    then show ?thesis
      using assms
      by (simp add: TextScramble_update_fields TextScramble_update_to_end list_all_end)
  qed
next
  case (Suc k)
  let ?w = "(animation_frame ^^ k) (TextScramble_update w0)"
  from Suc.IH show ?case
  proof (elim disjE conjE exE)
    assume "innerHTML (el ?w) = concat (map slot_to (queue w0))" "scheduled ?w = []"
    then show ?thesis by (simp add: animation_frame_idle)
  next
    fix h
    assume h: "scheduled ?w = [h]"
      and f: "frame ?w = int k + 1"
      and t: "map slot_to (queue ?w) = map slot_to (queue w0)"
      and e: "map slot_end (queue ?w) = map slot_end (queue w0)"
    let ?v = "?w\<lparr>scheduled := []\<rparr>"
    have step: "(animation_frame ^^ Suc k) (TextScramble_update w0) = TextScramble_update ?v"
      using h by (simp add: animation_frame_one)
    have v: "scheduled ?v = []" "frame ?v = int (Suc k)" "queue ?v = queue ?w"
      using f by simp_all
    show ?thesis
    proof (cases "list_all (\<lambda>q. slot_end q \<le> frame ?v) (queue ?v)")
      case True
      then have "innerHTML (el (TextScramble_update ?v)) = concat (map slot_to (queue ?v))"
        by (rule TextScramble_update_settled)
      moreover have "scheduled (TextScramble_update ?v) = []"
        using True by (simp add: TextScramble_update_fields)
      ultimately show ?thesis
        unfolding step using t by simp
    next
      case False
      then have "\<not> list_all (\<lambda>e. e \<le> int (Suc k)) (map slot_end (queue w0))"
        using e f by (simp add: list_all_end add.commute)
      moreover have "scheduled (TextScramble_update ?v) = [next_handle ?v]"
        "frame (TextScramble_update ?v) = int (Suc k) + 1"
        using False f by (simp_all add: TextScramble_update_fields)
      moreover have "map slot_to (queue (TextScramble_update ?v)) = map slot_to (queue w0)"
        "map slot_end (queue (TextScramble_update ?v)) = map slot_end (queue w0)"
        using t e by (simp_all add: TextScramble_update_to_end)
      ultimately show ?thesis
        unfolding step by simp
    qed
  qed
qed

lemma run_random: "random (run evs w) = random w"
  unfolding run_def
proof (induction evs arbitrary: w)
  case Nil
  then show ?case by simp
next
  case (Cons ev evs)
  have "random (step ev w) = random w"
    by (cases ev)
       (simp_all add: setText_unfold TextScramble_update_fields before_update_fields
          run_frame_callback_def)
  with Cons.IH [of "step ev w"] show ?case by simp
qed

lemma TextScramble_update_start_end:
  "list_all (\<lambda>q. P (slot_start q) (slot_end q)) (queue (TextScramble_update w))
     = list_all (\<lambda>q. P (slot_start q) (slot_end q)) (queue w)"
proof -
  have "list_all (\<lambda>q. P (slot_start q) (slot_end q)) qs
          = list_all (\<lambda>(a, b, c, d). P c d)
              (map (\<lambda>q. (slot_from q, slot_to q, slot_start q, slot_end q)) qs)" for qs
    by (simp add: list_all_iff)
  note conv = this
  show ?thesis
    by (simp only: conv [of "queue (TextScramble_update w)"] conv [of "queue w"]
        TextScramble_update_static)
qed

text \<open>The markup \<open>update\<close> writes for a scrambled slot displays the glyph alone.\<close>

lemma rendered_text_dud:
  \<open>rendered_text False (js ''<span class="dud">'' @ [c] @ js ''</span>'' @ cs)
     = c # rendered_text False cs\<close>
  by (simp add: opens_tag_def is_ascii_letter_def)

text \<open>
  C1, as stated, fails for a target text that contains markup. With every random value 0
  all slots end at frame 0, so \<open>setText("a<b>c")\<close> on an element showing \<open>"xy"\<close>
  settles at once: the string assigned to \<open>innerHTML\<close> is \<open>a<b>c\<close>, the browser reads
  \<open><b>\<close> as a tag, and the text displayed is \<open>ac\<close>.
\<close>

theorem setText_displayed_text_counterexample:
  "(let w1 = snd (setText (js ''xy'') (js ''a<b>c'')
                   (new_TextScramble createElement_div (\<lambda>_. 0)))
    in length (queue w1) = 5
     \<and> map slot_end (queue w1) = [0, 0, 0, 0, 0]
     \<and> frame w1 = 0
     \<and> innerHTML (el w1) = js ''a<b>c''
     \<and> innerText (el w1) = js ''ac''
     \<and> innerText (el w1) \<noteq> js ''a<b>c'')"
proof -
  let ?w0 = "before_update (js ''xy'') (js ''a<b>c'') (new_TextScramble createElement_div (\<lambda>_. 0))"
  have e: "map slot_end (queue ?w0) = [0, 0, 0, 0, 0]"
    by (simp add: before_update_def cancelAnimationFrame_def new_TextScramble_def push_slot_def
        Math_random_def char_at_def Let_def upt_rec [of 0] upt_rec [of "Suc _"])
  then have all: "list_all (\<lambda>q. slot_end q \<le> frame ?w0) (queue ?w0)"
    by (simp add: list_all_end before_update_fields)
  have html: "innerHTML (el (TextScramble_update ?w0)) = js ''a<b>c''"
    using TextScramble_update_settled [OF all] by (simp add: before_update_queue)
  have "rendered_text False (js ''a<b>c'') = js ''ac''"
    by (simp add: opens_tag_def is_ascii_letter_def)
  with html have shown: "innerText (el (TextScramble_update ?w0)) = js ''ac''"
    by (simp only: innerText_def)
  have len: "length (queue (TextScramble_update ?w0)) = 5"
    using TextScramble_update_to_end(2) [of ?w0, THEN arg_cong, of length]
    by (simp add: before_update_queue)
  have fr: "frame (TextScramble_update ?w0) = 0"
    using all by (simp add: TextScramble_update_fields before_update_fields)
  show ?thesis
    unfolding Let_def setText_unfold snd_conv
    using len e html shown fr by (simp add: TextScramble_update_to_end)
qed

text \<open>
  C1, amended. Let every value of \<open>Math.random()\<close> lie in [0, 1). In any reachable
  state, for any \<open>oldText\<close> and \<open>newText\<close>, \<open>setText\<close> leaves a queue of
  \<open>max (length oldText) (length newText)\<close> slots, each with a start frame in [0, 40) and
  an end frame that is the start frame plus an integer in [0, 40); and after any number
  \<open>k\<close> of animation frames such that no slot ends after frame \<open>k\<close>, the string
  assigned to the element's \<open>innerHTML\<close> is exactly \<open>newText\<close>, so that the text
  displayed is \<open>newText\<close> read as markup. For \<open>setText("abc")\<close> on an element showing
  \<open>"xy"\<close> that is three slots, and \<open>abc\<close> displayed after 78 frames at the latest.
\<close>

theorem setText_queue_and_final_markup:
  assumes "\<forall>i. 0 \<le> rnd i \<and> rnd i < 1"
  shows "(let w = run evs (new_TextScramble e rnd);
              w1 = snd (setText oldText newText w)
          in length (queue w1) = max (length oldText) (length newText)
           \<and> (\<forall>q \<in> set (queue w1).
                 0 \<le> slot_start q \<and> slot_start q < 40
               \<and> (\<exists>d. 0 \<le> d \<and> d < 40 \<and> slot_end q = slot_start q + d))
           \<and> (\<forall>k. (\<forall>q \<in> set (queue w1). slot_end q \<le> int k) \<longrightarrow>
                 innerHTML (el ((animation_frame ^^ k) w1)) = newText
               \<and> innerText (el ((animation_frame ^^ k) w1)) = rendered_text False newText))"
proof -
  define w where "w = run evs (new_TextScramble e rnd)"
  define w0 where "w0 = before_update oldText newText w"
  define w1 where "w1 = TextScramble_update w0"
  have w1: "snd (setText oldText newText w) = w1"
    by (simp add: setText_unfold w0_def w1_def)
  have inv: "loop_inv w"
    by (simp add: w_def run_inv new_TextScramble_inv)
  have "scheduled w0 = []"
    unfolding w0_def using inv by (rule before_update_scheduled)
  moreover have "frame w0 = 0"
    by (simp add: w0_def before_update_fields)
  ultimately have w0: "scheduled w0 = []" "frame w0 = 0" .
  have "length (map slot_to (queue w1)) = length (map slot_to (queue w0))"
    by (simp only: w1_def TextScramble_update_to_end)
  then have len: "length (queue w1) = max (length oldText) (length newText)"
    by (simp add: w0_def before_update_queue)
  have "random w = rnd"
    by (simp add: w_def run_random new_TextScramble_def)
  with assms have "list_all (\<lambda>q. 0 \<le> slot_start q \<and> slot_start q < 40
            \<and> slot_start q \<le> slot_end q \<and> slot_end q - slot_start q < 40) (queue w0)"
    unfolding w0_def by (intro before_update_bounds) simp
  then have "list_all (\<lambda>q. 0 \<le> slot_start q \<and> slot_start q < 40
            \<and> slot_start q \<le> slot_end q \<and> slot_end q - slot_start q < 40) (queue w1)"
    unfolding w1_def
    using TextScramble_update_start_end
      [of "\<lambda>s e. 0 \<le> s \<and> s < 40 \<and> s \<le> e \<and> e - s < 40" w0]
    by simp
  then have bounds: "\<forall>q \<in> set (queue w1).
                 0 \<le> slot_start q \<and> slot_start q < 40
               \<and> (\<exists>d. 0 \<le> d \<and> d < 40 \<and> slot_end q = slot_start q + d)"
  proof (simp only: list_all_iff, intro ballI)
    fix q
    assume "\<forall>q \<in> set (queue w1). 0 \<le> slot_start q \<and> slot_start q < 40
            \<and> slot_start q \<le> slot_end q \<and> slot_end q - slot_start q < 40"
      and "q \<in> set (queue w1)"
    then have q: "0 \<le> slot_start q" "slot_start q < 40" "slot_start q \<le> slot_end q"
      "slot_end q - slot_start q < 40"
      by auto
    then have "0 \<le> slot_end q - slot_start q \<and> slot_end q - slot_start q < 40
        \<and> slot_end q = slot_start q + (slot_end q - slot_start q)"
      by simp
    then have "\<exists>d. 0 \<le> d \<and> d < 40 \<and> slot_end q = slot_start q + d" ..
    with q show "0 \<le> slot_start q \<and> slot_start q < 40
               \<and> (\<exists>d. 0 \<le> d \<and> d < 40 \<and> slot_end q = slot_start q + d)"
      by simp
  qed
  have settle: "innerHTML (el ((animation_frame ^^ k) w1)) = newText
      \<and> innerText (el ((animation_frame ^^ k) w1)) = rendered_text False newText"
    if "\<forall>q \<in> set (queue w1). slot_end q \<le> int k" for k
  proof -
    have "list_all (\<lambda>e. e \<le> int k) (map slot_end (queue w1))"
      using that by (simp add: list_all_iff)
    then have "list_all (\<lambda>e. e \<le> int k) (map slot_end (queue w0))"
      by (simp only: w1_def TextScramble_update_to_end)
    with frames_after_update [OF w0, of k]
    have "innerHTML (el ((animation_frame ^^ k) w1)) = concat (map slot_to (queue w0))"
      unfolding w1_def by blast
    then show ?thesis
      by (simp add: w0_def before_update_queue innerText_def)
  qed
  show ?thesis
    unfolding Let_def w_def [symmetric] w1
    using len bounds settle by blast
qed

theorem setText_queue_and_final_markup_witness:
  "(let w1 = snd (setText (js ''xy'') (js ''abc'') (new_TextScramble createElement_div (\<lambda>_. 1 / 2)))
    in length (queue w1) = 3
     \<and> innerHTML (el ((animation_frame ^^ 78) w1)) = js ''abc''
     \<and> innerText (el ((animation_frame ^^ 78) w1)) = js ''abc'')"
proof -
  let ?w1 = "snd (setText (js ''xy'') (js ''abc'') (new_TextScramble createElement_div (\<lambda>_. 1 / 2)))"
  have rnd: "\<forall>i::nat. (0::real) \<le> 1 / 2 \<and> (1::real) / 2 < 1"
    by simp
  note inst = setText_queue_and_final_markup
    [where rnd = "\<lambda>_. 1 / 2" and evs = "[]" and e = createElement_div
       and oldText = "js ''xy''" and newText = "js ''abc''", OF rnd,
     unfolded Let_def run_def fold.simps id_apply]
  from inst have len: "length (queue ?w1) = 3"
    by simp
  from inst have "\<forall>q \<in> set (queue ?w1). slot_end q \<le> int 78"
    by fastforce
  with inst have "innerHTML (el ((animation_frame ^^ 78) ?w1)) = js ''abc''
      \<and> innerText (el ((animation_frame ^^ 78) ?w1)) = rendered_text False (js ''abc'')"
    by blast
  moreover have "rendered_text False (js ''abc'') = js ''abc''"
    by simp
  ultimately show ?thesis
    using len by (simp only: Let_def)
qed

end
